theory Spec2Isabelle
  imports Complex_Main "HOL-Library.Multiset"
begin

section \<open>Numbers of the numeric library\<close>

text \<open>
  The notebook computes with numpy arrays of floating-point numbers. Rounding is left out:
  a finite number is a real, and arithmetic on finite numbers is exact. What is kept is
  the part of the arithmetic that decides how the program behaves on degenerate input:
  the two infinities and the not-a-number value, which numpy produces (with a warning,
  never an exception) where a division has a zero divisor. Signed zeros are not
  distinguished; every divisor of the program is a length or a product of norms, hence
  never a negative zero.
\<close>

datatype fl = Fin real | PInf | NInf | NaN

datatype error = ValueError | IndexError

definition inf_times :: "real \<Rightarrow> fl" where
  "inf_times x = (if x = 0 then NaN else if 0 < x then PInf else NInf)"

fun fl_add :: "fl \<Rightarrow> fl \<Rightarrow> fl" where
  "fl_add NaN y = NaN"
| "fl_add x NaN = NaN"
| "fl_add (Fin a) (Fin b) = Fin (a + b)"
| "fl_add PInf NInf = NaN"
| "fl_add NInf PInf = NaN"
| "fl_add PInf y = PInf"
| "fl_add x PInf = PInf"
| "fl_add NInf y = NInf"
| "fl_add x NInf = NInf"

fun fl_mul :: "fl \<Rightarrow> fl \<Rightarrow> fl" where
  "fl_mul NaN y = NaN"
| "fl_mul x NaN = NaN"
| "fl_mul (Fin a) (Fin b) = Fin (a * b)"
| "fl_mul PInf (Fin b) = inf_times b"
| "fl_mul (Fin a) PInf = inf_times a"
| "fl_mul NInf (Fin b) = inf_times (- b)"
| "fl_mul (Fin a) NInf = inf_times (- a)"
| "fl_mul PInf PInf = PInf"
| "fl_mul NInf NInf = PInf"
| "fl_mul PInf NInf = NInf"
| "fl_mul NInf PInf = NInf"

fun fl_div :: "fl \<Rightarrow> fl \<Rightarrow> fl" where
  "fl_div NaN y = NaN"
| "fl_div x NaN = NaN"
| "fl_div (Fin a) (Fin b) = (if b = 0 then inf_times a else Fin (a / b))"
| "fl_div (Fin a) y = Fin 0"
| "fl_div PInf (Fin b) = (if 0 \<le> b then PInf else NInf)"
| "fl_div NInf (Fin b) = (if 0 \<le> b then NInf else PInf)"
| "fl_div x y = NaN"

fun fl_sqrt :: "fl \<Rightarrow> fl" where
  "fl_sqrt (Fin a) = (if a < 0 then NaN else Fin (sqrt a))"
| "fl_sqrt PInf = PInf"
| "fl_sqrt x = NaN"

fun fl_neg :: "fl \<Rightarrow> fl" where
  "fl_neg (Fin a) = Fin (- a)"
| "fl_neg PInf = NInf"
| "fl_neg NInf = PInf"
| "fl_neg NaN = NaN"

text \<open>The comparison \<open><\<close>: every comparison with not-a-number is false.\<close>

fun fl_lt :: "fl \<Rightarrow> fl \<Rightarrow> bool" where
  "fl_lt NaN y = False"
| "fl_lt x NaN = False"
| "fl_lt (Fin a) (Fin b) = (a < b)"
| "fl_lt x NInf = False"
| "fl_lt NInf y = True"
| "fl_lt PInf y = False"
| "fl_lt x PInf = True"

text \<open>The comparison \<open>\<ge>\<close>, used to state the order of scores.\<close>

fun fl_ge :: "fl \<Rightarrow> fl \<Rightarrow> bool" where
  "fl_ge NaN y = False"
| "fl_ge x NaN = False"
| "fl_ge (Fin a) (Fin b) = (b \<le> a)"
| "fl_ge x NInf = True"
| "fl_ge NInf y = False"
| "fl_ge PInf y = True"
| "fl_ge x PInf = False"

section \<open>Arrays\<close>

text \<open>The dimension of the embedding, the literal \<open>300\<close> of the notebook.\<close>

definition D :: nat where
  "D = 300"

definition zeros :: "nat \<Rightarrow> fl list" where
  "zeros n = replicate n (Fin 0)"

definition fl_sum :: "fl list \<Rightarrow> fl" where
  "fl_sum xs = foldr fl_add xs (Fin 0)"

text \<open>
  \<open>numpy.add\<close> on two one-dimensional arrays: elementwise on equal lengths, an array of
  length one is broadcast, any other pair of lengths raises \<open>ValueError\<close>.
\<close>

definition np_add :: "fl list \<Rightarrow> fl list \<Rightarrow> error + fl list" where
  "np_add a b =
     (if length a = length b then Inr (map2 fl_add a b)
      else if length a = 1 then Inr (map (fl_add (hd a)) b)
      else if length b = 1 then Inr (map (\<lambda>x. fl_add x (hd b)) a)
      else Inl ValueError)"

text \<open>\<open>numpy.inner\<close> on two one-dimensional arrays; the lengths must agree.\<close>

definition np_inner :: "fl list \<Rightarrow> fl list \<Rightarrow> error + fl" where
  "np_inner a b =
     (if length a = length b then Inr (fl_sum (map2 fl_mul a b)) else Inl ValueError)"

text \<open>\<open>numpy.linalg.norm\<close> of a one-dimensional array: the root of the sum of squares.\<close>

definition norm_fl :: "fl list \<Rightarrow> fl" where
  "norm_fl a = fl_sqrt (fl_sum (map (\<lambda>x. fl_mul x x) a))"

section \<open>Strings\<close>

text \<open>
  A string is the list of its code points, each below 256. \<open>str.lower\<close> maps the
  capital letters of that range to their small letters; \<open>str.split()\<close> cuts at runs of
  white space and yields no empty token.
\<close>

definition is_space :: "char \<Rightarrow> bool" where
  "is_space c =
     (let n = (of_char c :: nat)
      in (9 \<le> n \<and> n \<le> 13) \<or> (28 \<le> n \<and> n \<le> 32) \<or> n = 133 \<or> n = 160)"

definition lower_char :: "char \<Rightarrow> char" where
  "lower_char c =
     (let n = (of_char c :: nat)
      in if (65 \<le> n \<and> n \<le> 90) \<or> (192 \<le> n \<and> n \<le> 222 \<and> n \<noteq> 215)
         then char_of (n + 32) else c)"

definition lower_py :: "string \<Rightarrow> string" where
  "lower_py s = map lower_char s"

fun split_from :: "string \<Rightarrow> string \<Rightarrow> string list" where
  "split_from cur [] = (if cur = [] then [] else [rev cur])"
| "split_from cur (c # cs) =
     (if is_space c
      then (if cur = [] then split_from [] cs else rev cur # split_from [] cs)
      else split_from (c # cur) cs)"

definition split_py :: "string \<Rightarrow> string list" where
  "split_py s = split_from [] s"

section \<open>The functions of the notebook\<close>

text \<open>
  The embedding table \<open>googledata_model\<close> and the stopword set of gensim are not part of
  the repository: both are parameters. Looking up a word that the table does not hold
  raises \<open>KeyError\<close>, which is \<open>None\<close> here.
\<close>

type_synonym model = "string \<rightharpoonup> real list"

definition similarity :: "fl list \<Rightarrow> fl list \<Rightarrow> error + fl" where
  "similarity vector1 vector2 =
     (case np_inner vector1 vector2 of
        Inl e \<Rightarrow> Inl e
      | Inr d \<Rightarrow> Inr (fl_div d (fl_mul (norm_fl vector1) (norm_fl vector2))))"

definition phrase_words :: "string set \<Rightarrow> string \<Rightarrow> string list" where
  "phrase_words stopwords phrase =
     filter (\<lambda>word. word \<notin> stopwords \<or> True) (split_py (lower_py phrase))"

definition word_vector :: "model \<Rightarrow> string \<Rightarrow> fl list" where
  "word_vector googledata_model word =
     (case googledata_model word of Some v \<Rightarrow> map Fin v | None \<Rightarrow> zeros D)"

fun add_words :: "model \<Rightarrow> string list \<Rightarrow> fl list \<Rightarrow> error + fl list" where
  "add_words googledata_model [] pv = Inr pv"
| "add_words googledata_model (word # ws) pv =
     (case np_add (word_vector googledata_model word) pv of
        Inl e \<Rightarrow> Inl e
      | Inr pv' \<Rightarrow> add_words googledata_model ws pv')"

definition phrase_vector :: "string set \<Rightarrow> model \<Rightarrow> string \<Rightarrow> error + fl list" where
  "phrase_vector stopwords googledata_model phrase =
     (let pw = phrase_words stopwords phrase
      in case add_words googledata_model pw (zeros D) of
           Inl e \<Rightarrow> Inl e
         | Inr pv \<Rightarrow>
             Inr (map (\<lambda>x. fl_div (fl_mul x (Fin 1)) (Fin (real (length pw)))) pv))"

text \<open>
  \<open>interesting_phrases_vectors = list(map(phrase_vector, interesting_phrases))\<close>. An
  element of a Python list is an array or \<open>None\<close>, so the list holds options; an
  exception in any call aborts the construction.
\<close>

fun phrase_vectors ::
  "string set \<Rightarrow> model \<Rightarrow> string list \<Rightarrow> error + fl list option list" where
  "phrase_vectors stopwords googledata_model [] = Inr []"
| "phrase_vectors stopwords googledata_model (p # ps) =
     (case phrase_vector stopwords googledata_model p of
        Inl e \<Rightarrow> Inl e
      | Inr v \<Rightarrow>
          (case phrase_vectors stopwords googledata_model ps of
             Inl e \<Rightarrow> Inl e
           | Inr vs \<Rightarrow> Inr (Some v # vs)))"

definition enumerate_py :: "'a list \<Rightarrow> (nat \<times> 'a) list" where
  "enumerate_py xs = zip [0..<length xs] xs"

text \<open>The comprehension that keeps the items whose vector is not \<open>None\<close>.\<close>

definition not_none :: "(nat \<times> fl list option) list \<Rightarrow> (nat \<times> fl list) list" where
  "not_none items =
     concat (map (\<lambda>item. case snd item of None \<Rightarrow> [] | Some v \<Rightarrow> [(fst item, v)]) items)"

text \<open>The loop that replaces every vector by its similarity to the query vector.\<close>

fun score_all :: "(nat \<times> fl list) list \<Rightarrow> fl list \<Rightarrow> error + (nat \<times> fl) list" where
  "score_all [] vector_to_compare = Inr []"
| "score_all (vector # rest) vector_to_compare =
     (case similarity (snd vector) vector_to_compare of
        Inl e \<Rightarrow> Inl e
      | Inr s \<Rightarrow>
          (case score_all rest vector_to_compare of
             Inl e \<Rightarrow> Inl e
           | Inr scored \<Rightarrow> Inr ((fst vector, s) # scored)))"

text \<open>
  \<open>sorted(xs, key = k)\<close>: a stable sort into ascending order of the keys that compares
  keys with \<open><\<close> only. On keys that \<open><\<close> orders totally the result is the one stable
  ascending arrangement, whatever the algorithm. Where a key is not-a-number the result
  depends on the algorithm of the interpreter: the insertion sort below agrees with it on
  lists of at most two elements only, and on longer lists with such a key it may order
  the elements differently. There nothing but the length and the multiset of the result
  is used.
\<close>

fun insort_lt :: "('a \<Rightarrow> fl) \<Rightarrow> 'a \<Rightarrow> 'a list \<Rightarrow> 'a list" where
  "insort_lt k x [] = [x]"
| "insort_lt k x (y # ys) =
     (if fl_lt (k y) (k x) then y # insort_lt k x ys else x # y # ys)"

definition sorted_py :: "('a \<Rightarrow> fl) \<Rightarrow> 'a list \<Rightarrow> 'a list" where
  "sorted_py k xs = foldr (insort_lt k) xs []"

text \<open>The loop \<open>for index in range(number)\<close> that collects the output.\<close>

fun collect ::
  "string list \<Rightarrow> (nat \<times> fl) list \<Rightarrow> nat list \<Rightarrow> string list \<Rightarrow> error + string list" where
  "collect interesting_phrases sorted_vectors [] output = Inr output"
| "collect interesting_phrases sorted_vectors (index # rest) output =
     (if index < length sorted_vectors
      then (let i = fst (sorted_vectors ! index)
            in if i < length interesting_phrases
               then collect interesting_phrases sorted_vectors rest
                      (output @ [interesting_phrases ! i])
               else Inl IndexError)
      else Inl IndexError)"

definition range_py :: "int \<Rightarrow> nat list" where
  "range_py number = [0..<nat number]"

text \<open>The scored and sorted candidates, before the first \<open>number\<close> of them are taken.\<close>

definition sorted_vectors ::
  "string set \<Rightarrow> model \<Rightarrow> fl list option list \<Rightarrow> string \<Rightarrow> error + (nat \<times> fl) list" where
  "sorted_vectors stopwords googledata_model interesting_phrases_vectors phrase =
     (let numbered_vectors = not_none (enumerate_py interesting_phrases_vectors)
      in case phrase_vector stopwords googledata_model phrase of
           Inl e \<Rightarrow> Inl e
         | Inr vector_to_compare \<Rightarrow>
             (case score_all numbered_vectors vector_to_compare of
                Inl e \<Rightarrow> Inl e
              | Inr scored \<Rightarrow> Inr (sorted_py (\<lambda>item. fl_neg (snd item)) scored)))"

definition get_comparisons ::
  "string set \<Rightarrow> model \<Rightarrow> string list \<Rightarrow> fl list option list \<Rightarrow> string \<Rightarrow> int
     \<Rightarrow> error + string list" where
  "get_comparisons stopwords googledata_model interesting_phrases
     interesting_phrases_vectors phrase number =
     (case sorted_vectors stopwords googledata_model interesting_phrases_vectors phrase of
        Inl e \<Rightarrow> Inl e
      | Inr sv \<Rightarrow> collect interesting_phrases sv (range_py number) [])"

text \<open>
  The notebook from the phrase list to the answer: the vectors of the corpus are computed
  once, then the query runs against them.
\<close>

definition query ::
  "string set \<Rightarrow> model \<Rightarrow> string list \<Rightarrow> string \<Rightarrow> int \<Rightarrow> error + string list" where
  "query stopwords googledata_model interesting_phrases phrase number =
     (case phrase_vectors stopwords googledata_model interesting_phrases of
        Inl e \<Rightarrow> Inl e
      | Inr vs \<Rightarrow>
          get_comparisons stopwords googledata_model interesting_phrases vs phrase number)"

section \<open>Notions used to state the properties\<close>

text \<open>The table is well formed when every vector it holds has the dimension \<open>D\<close>.\<close>

definition wf_model :: "model \<Rightarrow> bool" where
  "wf_model googledata_model = (\<forall>v \<in> ran googledata_model. length v = D)"

text \<open>
  The specification's reading of the vectorizer: a token contributes its vector of the
  table, or the zero vector of dimension \<open>D\<close> when the table does not know it, and the
  phrase vector is the sum of the contributions divided by the number of tokens,
  component by component.
\<close>

definition token_vector_spec :: "model \<Rightarrow> string \<Rightarrow> real list" where
  "token_vector_spec googledata_model word =
     (case googledata_model word of Some v \<Rightarrow> v | None \<Rightarrow> replicate D 0)"

definition mean_spec :: "real list list \<Rightarrow> fl list" where
  "mean_spec vs = map (\<lambda>i. Fin ((\<Sum>v\<leftarrow>vs. v ! i) / real (length vs))) [0..<D]"

text \<open>A vector is real when none of its components is infinite or not-a-number.\<close>

fun is_fin :: "fl \<Rightarrow> bool" where
  "is_fin (Fin a) = True"
| "is_fin x = False"

text \<open>Adjacent scores in descending order.\<close>

fun descending :: "fl list \<Rightarrow> bool" where
  "descending (x # y # ys) = (fl_ge x y \<and> descending (y # ys))"
| "descending xs = True"

text \<open>
  A small table for the examples: it knows the one word \<open>happy\<close>, whose vector is the
  first unit vector.
\<close>

definition unit_vector :: "real list" where
  "unit_vector = 1 # replicate (D - 1) 0"

definition happy_model :: model where
  "happy_model = [''happy'' \<mapsto> unit_vector]"

text \<open>
  The value that \<open>similarity\<close> returns on two vectors of equal dimension, and the vector
  that \<open>phrase_vector\<close> returns where it raises no error.
\<close>

definition score_of :: "fl list \<Rightarrow> fl list \<Rightarrow> fl" where
  "score_of a b = fl_div (fl_sum (map2 fl_mul a b)) (fl_mul (norm_fl a) (norm_fl b))"

definition vector_of :: "string set \<Rightarrow> model \<Rightarrow> string \<Rightarrow> fl list" where
  "vector_of stopwords googledata_model phrase =
     (case phrase_vector stopwords googledata_model phrase of Inr v \<Rightarrow> v | Inl e \<Rightarrow> [])"

fun real_of :: "fl \<Rightarrow> real" where
  "real_of (Fin a) = a"
| "real_of x = 0"

text \<open>A value that is zero or not-a-number: what a product with a zero factor can be.\<close>

definition zero_or_nan :: "fl \<Rightarrow> bool" where
  "zero_or_nan x = (x = Fin 0 \<or> x = NaN)"

section \<open>Auxiliary facts\<close>

lemma D_pos: "0 < D"
  by (simp add: D_def)

lemma D_neq_1: "D \<noteq> 1" "D \<noteq> Suc 0"
  by (simp_all add: D_def)

lemma length_zeros [simp]: "length (zeros n) = n"
  by (simp add: zeros_def)

lemma zeros_map_Fin: "zeros n = map Fin (replicate n 0)"
  by (simp add: zeros_def)

lemma word_vector_spec: "word_vector m w = map Fin (token_vector_spec m w)"
  by (simp add: word_vector_def token_vector_spec_def zeros_map_Fin split: option.split)

lemma length_token_vector: "wf_model m \<Longrightarrow> length (token_vector_spec m w) = D"
  by (auto simp: wf_model_def token_vector_spec_def ran_def split: option.split)

lemma np_add_Fin:
  "length a = length b \<Longrightarrow> np_add (map Fin a) (map Fin b) = Inr (map Fin (map2 (+) a b))"
  by (simp add: np_add_def zip_map_map list_eq_iff_nth_eq)

lemma np_add_length:
  "np_add a b = Inr r \<Longrightarrow> length b = D \<Longrightarrow> length r = D"
  using D_neq_1 by (auto simp: np_add_def split: if_splits)

lemma add_words_length:
  "add_words m ws pv = Inr r \<Longrightarrow> length pv = D \<Longrightarrow> length r = D"
proof (induction ws arbitrary: pv)
  case Nil
  then show ?case by simp
next
  case (Cons w ws)
  then show ?case
    by (auto split: sum.splits dest: np_add_length)
qed

lemma phrase_vector_length: "phrase_vector sw m p = Inr v \<Longrightarrow> length v = D"
  by (auto simp: phrase_vector_def Let_def split: sum.splits dest: add_words_length)

lemma add_words_sum:
  assumes "wf_model m" "length acc = D"
  shows "add_words m ws (map Fin acc) =
           Inr (map (\<lambda>i. Fin ((\<Sum>w\<leftarrow>ws. token_vector_spec m w ! i) + acc ! i)) [0..<D])"
  using assms(2)
proof (induction ws arbitrary: acc)
  case Nil
  then show ?case by (simp add: list_eq_iff_nth_eq)
next
  case (Cons w ws)
  let ?acc = "map2 (+) (token_vector_spec m w) acc"
  have len: "length (token_vector_spec m w) = D"
    by (rule length_token_vector [OF assms(1)])
  have step: "np_add (word_vector m w) (map Fin acc) = Inr (map Fin ?acc)"
    unfolding word_vector_spec by (rule np_add_Fin) (simp add: len Cons.prems)
  have len': "length ?acc = D"
    by (simp add: len Cons.prems)
  have "add_words m (w # ws) (map Fin acc) = add_words m ws (map Fin ?acc)"
    by (simp only: add_words.simps step sum.case)
  also have "\<dots> = Inr (map (\<lambda>i. Fin ((\<Sum>w\<leftarrow>ws. token_vector_spec m w ! i) + ?acc ! i)) [0..<D])"
    by (rule Cons.IH [OF len'])
  also have "\<dots> = Inr (map (\<lambda>i. Fin ((\<Sum>w\<leftarrow>w # ws. token_vector_spec m w ! i) + acc ! i)) [0..<D])"
    by (simp add: len Cons.prems)
  finally show ?case .
qed

lemma phrase_words_all: "phrase_words sw p = split_py (lower_py p)"
  by (simp add: phrase_words_def)

lemma phrase_vector_mean_aux:
  assumes "wf_model m" "phrase_words sw p \<noteq> []"
  shows "phrase_vector sw m p = Inr (mean_spec (map (token_vector_spec m) (phrase_words sw p)))"
proof -
  have "add_words m (phrase_words sw p) (zeros D) =
          Inr (map (\<lambda>i. Fin ((\<Sum>w\<leftarrow>phrase_words sw p. token_vector_spec m w ! i) + replicate D 0 ! i)) [0..<D])"
    unfolding zeros_map_Fin by (rule add_words_sum [OF assms(1)]) simp
  then show ?thesis
    using assms(2) by (simp add: phrase_vector_def Let_def mean_spec_def o_def sum_list_map_eq_sum_count comp_def)
qed


lemma fl_add_eq_Fin: "fl_add x y = Fin t \<Longrightarrow> \<exists>a b. x = Fin a \<and> y = Fin b \<and> t = a + b"
  by (cases x; cases y) simp_all

lemma fl_mul_self_eq_Fin: "fl_mul x x = Fin t \<Longrightarrow> \<exists>a. x = Fin a \<and> t = a * a"
  by (cases x) simp_all

lemma fl_sqrt_eq_Fin: "fl_sqrt x = Fin r \<Longrightarrow> \<exists>s. x = Fin s \<and> 0 \<le> s \<and> r = sqrt s"
  by (cases x) (auto split: if_splits)

lemma sum_squares_Fin:
  "fl_sum (map (\<lambda>x. fl_mul x x) a) = Fin s \<Longrightarrow>
     0 \<le> s \<and> (\<forall>x \<in> set a. is_fin x) \<and> (s = 0 \<longrightarrow> (\<forall>x \<in> set a. x = Fin 0))"
proof (induction a arbitrary: s)
  case Nil
  then show ?case by (simp add: fl_sum_def)
next
  case (Cons x a)
  from Cons.prems have "fl_add (fl_mul x x) (fl_sum (map (\<lambda>x. fl_mul x x) a)) = Fin s"
    by (simp add: fl_sum_def)
  then obtain u r where u: "fl_mul x x = Fin u" and r: "fl_sum (map (\<lambda>x. fl_mul x x) a) = Fin r"
    and s: "s = u + r"
    by (blast dest: fl_add_eq_Fin)
  from u obtain c where c: "x = Fin c" "u = c * c"
    by (blast dest: fl_mul_self_eq_Fin)
  from Cons.IH [OF r] have ih: "0 \<le> r" "\<forall>x \<in> set a. is_fin x" "r = 0 \<longrightarrow> (\<forall>x \<in> set a. x = Fin 0)"
    by simp_all
  have "0 \<le> u" by (simp add: c)
  moreover have "s = 0 \<longrightarrow> u = 0 \<and> r = 0"
    using \<open>0 \<le> u\<close> ih(1) s by linarith
  ultimately show ?case
    using ih s c by auto
qed

lemma norm_zero_all_zero:
  assumes "norm_fl a = Fin 0"
  shows "\<forall>x \<in> set a. x = Fin 0"
proof -
  from assms obtain s where "fl_sum (map (\<lambda>x. fl_mul x x) a) = Fin s" "0 \<le> s" "0 = sqrt s"
    unfolding norm_fl_def by (blast dest: fl_sqrt_eq_Fin)
  then show ?thesis
    using sum_squares_Fin [of a s] by simp
qed

lemma fl_mul_zero_left: "zero_or_nan (fl_mul (Fin 0) y)"
  by (cases y) (simp_all add: zero_or_nan_def inf_times_def)

lemma fl_mul_zero_right: "zero_or_nan (fl_mul x (Fin 0))"
  by (cases x) (simp_all add: zero_or_nan_def inf_times_def)

lemma fl_add_zero_or_nan: "zero_or_nan x \<Longrightarrow> zero_or_nan y \<Longrightarrow> zero_or_nan (fl_add x y)"
  by (auto simp: zero_or_nan_def)

lemma fl_sum_zero_or_nan: "\<forall>x \<in> set xs. zero_or_nan x \<Longrightarrow> zero_or_nan (fl_sum xs)"
  by (induction xs) (simp_all add: fl_sum_def zero_or_nan_def fl_add_zero_or_nan [unfolded zero_or_nan_def])

lemma fl_div_zero_or_nan: "zero_or_nan x \<Longrightarrow> zero_or_nan y \<Longrightarrow> fl_div x y = NaN"
  by (auto simp: zero_or_nan_def inf_times_def)

lemma inner_zero_left:
  assumes "\<forall>x \<in> set a. x = Fin 0"
  shows "zero_or_nan (fl_sum (map2 fl_mul a b))"
proof (rule fl_sum_zero_or_nan, rule ballI)
  fix z assume "z \<in> set (map2 fl_mul a b)"
  then obtain x y where "(x, y) \<in> set (zip a b)" "z = fl_mul x y"
    by auto
  with assms show "zero_or_nan z"
    by (auto dest!: set_zip_leftD simp: fl_mul_zero_left)
qed

lemma inner_zero_right:
  assumes "\<forall>x \<in> set b. x = Fin 0"
  shows "zero_or_nan (fl_sum (map2 fl_mul a b))"
proof (rule fl_sum_zero_or_nan, rule ballI)
  fix z assume "z \<in> set (map2 fl_mul a b)"
  then obtain x y where "(x, y) \<in> set (zip a b)" "z = fl_mul x y"
    by auto
  with assms show "zero_or_nan z"
    by (auto dest!: set_zip_rightD simp: fl_mul_zero_right)
qed

lemma similarity_zero_norm_aux:
  assumes len: "length a = length b"
      and zero: "norm_fl a = Fin 0 \<or> norm_fl b = Fin 0"
  shows "similarity a b = Inr NaN"
proof -
  have num: "zero_or_nan (fl_sum (map2 fl_mul a b))"
    using zero norm_zero_all_zero inner_zero_left inner_zero_right by blast
  have den: "zero_or_nan (fl_mul (norm_fl a) (norm_fl b))"
    using zero fl_mul_zero_left fl_mul_zero_right by auto
  show ?thesis
    by (simp add: similarity_def np_inner_def len fl_div_zero_or_nan [OF num den])
qed

lemma map2_same: "map2 f v v = map (\<lambda>x. f x x) v"
  by (induction v) simp_all

lemma similarity_self_aux:
  assumes "norm_fl v = Fin r" "r \<noteq> 0"
  shows "similarity v v = Inr (Fin 1)"
proof -
  from assms(1) obtain s where s: "fl_sum (map (\<lambda>x. fl_mul x x) v) = Fin s" "0 \<le> s" "r = sqrt s"
    unfolding norm_fl_def by (blast dest: fl_sqrt_eq_Fin)
  with assms(2) have "s \<noteq> 0" by auto
  have n: "norm_fl v = Fin (sqrt s)"
    using assms(1) s(3) by simp
  show ?thesis
    using \<open>s \<noteq> 0\<close> s(2)
    by (simp add: similarity_def np_inner_def map2_same s(1) n)
qed

lemma fl_sum_Nil: "fl_sum [] = Fin 0"
  by (simp add: fl_sum_def)

lemma fl_sum_Cons: "fl_sum (x # xs) = fl_add x (fl_sum xs)"
  by (simp add: fl_sum_def)

lemma fl_sum_zeros: "fl_sum (replicate n (Fin 0)) = Fin 0"
  by (induction n) (simp_all add: fl_sum_def)

lemma norm_zeros: "norm_fl (zeros n) = Fin 0"
  by (simp add: norm_fl_def zeros_def fl_sum_zeros)

lemma length_unit_vector: "length unit_vector = D"
  using D_pos by (simp add: unit_vector_def)

lemma norm_unit_vector: "norm_fl (map Fin unit_vector) = Fin 1"
  by (simp add: norm_fl_def unit_vector_def fl_sum_Cons fl_sum_zeros)

lemma wf_happy_model: "wf_model happy_model"
  by (simp add: wf_model_def happy_model_def length_unit_vector)

lemma mean_spec_single: "length v = D \<Longrightarrow> mean_spec [v] = map Fin v"
  by (simp add: mean_spec_def list_eq_iff_nth_eq)

lemma words_happy: "phrase_words {} ''happy'' = [''happy'']"
  by (simp add: phrase_words_def split_py_def lower_py_def lower_char_def is_space_def)

lemma words_xyzzy: "phrase_words {} ''xyzzy'' = [''xyzzy'']"
  by (simp add: phrase_words_def split_py_def lower_py_def lower_char_def is_space_def)

lemma phrase_vector_happy: "phrase_vector {} happy_model ''happy'' = Inr (map Fin unit_vector)"
  using phrase_vector_mean_aux [OF wf_happy_model, of "{}" "''happy''"]
  by (simp add: words_happy token_vector_spec_def happy_model_def mean_spec_single length_unit_vector)

lemma phrase_vector_xyzzy: "phrase_vector {} happy_model ''xyzzy'' = Inr (zeros D)"
  using phrase_vector_mean_aux [OF wf_happy_model, of "{}" "''xyzzy''"]
  by (simp add: words_xyzzy token_vector_spec_def happy_model_def mean_spec_single zeros_map_Fin)

lemma of_char_lower_char:
  "is_space (lower_char c) = is_space c"
  by (auto simp: is_space_def lower_char_def Let_def)

lemma split_from_empty:
  "split_from cur s = [] \<longleftrightarrow> cur = [] \<and> (\<forall>c \<in> set s. is_space c)"
  by (induction s arbitrary: cur) auto

lemma phrase_words_empty_iff: "phrase_words sw p = [] \<longleftrightarrow> (\<forall>c \<in> set p. is_space c)"
  by (simp add: phrase_words_all split_py_def split_from_empty lower_py_def of_char_lower_char)

lemma phrase_vector_no_words:
  assumes "phrase_words sw p = []"
  shows "phrase_vector sw m p = Inr (replicate D NaN)"
  using assms by (simp add: phrase_vector_def zeros_def inf_times_def)

lemma words_happy_xyzzy: "phrase_words {} ''Happy xyzzy'' = [''happy'', ''xyzzy'']"
  by code_simp

lemma token_vector_happy: "token_vector_spec happy_model ''happy'' = unit_vector"
  by (simp add: token_vector_spec_def happy_model_def)

lemma token_vector_xyzzy: "token_vector_spec happy_model ''xyzzy'' = replicate D 0"
  by (simp add: token_vector_spec_def happy_model_def)

lemma mean_spec_happy_xyzzy:
  "mean_spec [unit_vector, replicate D 0] = Fin (1 / 2) # replicate (D - 1) (Fin 0)"
  using D_pos
  by (auto simp: mean_spec_def unit_vector_def list_eq_iff_nth_eq nth_Cons split: nat.splits)

lemma similarity_score_of: "length a = length b \<Longrightarrow> similarity a b = Inr (score_of a b)"
  by (simp add: similarity_def np_inner_def score_of_def)

lemma phrase_vector_total:
  assumes "wf_model m"
  shows "\<exists>v. phrase_vector sw m p = Inr v"
proof (cases "phrase_words sw p = []")
  case True
  then show ?thesis by (simp add: phrase_vector_no_words)
next
  case False
  then show ?thesis using assms by (simp add: phrase_vector_mean_aux)
qed

lemma phrase_vector_vector_of:
  "wf_model m \<Longrightarrow> phrase_vector sw m p = Inr (vector_of sw m p)"
  using phrase_vector_total [of m sw p] by (auto simp: vector_of_def)

lemma phrase_vectors_Inr:
  "phrase_vectors sw m ps = Inr vs \<Longrightarrow>
     \<exists>ws. vs = map Some ws \<and> length ws = length ps \<and> (\<forall>w \<in> set ws. length w = D)"
proof (induction ps arbitrary: vs)
  case Nil
  then show ?case by simp
next
  case (Cons p ps)
  from Cons.prems obtain v vs' where v: "phrase_vector sw m p = Inr v"
    and vs': "phrase_vectors sw m ps = Inr vs'" and vs: "vs = Some v # vs'"
    by (auto split: sum.splits)
  from Cons.IH [OF vs'] obtain ws where "vs' = map Some ws" "length ws = length ps"
    "\<forall>w \<in> set ws. length w = D"
    by blast
  with v vs have "vs = map Some (v # ws) \<and> length (v # ws) = length (p # ps) \<and>
      (\<forall>w \<in> set (v # ws). length w = D)"
    by (simp add: phrase_vector_length)
  then show ?case by blast
qed

lemma phrase_vectors_wf:
  "wf_model m \<Longrightarrow> phrase_vectors sw m ps = Inr (map (\<lambda>p. Some (vector_of sw m p)) ps)"
  by (induction ps) (simp_all add: phrase_vector_vector_of)

lemma not_none_zip: "not_none (zip ns (map Some ws)) = zip ns ws"
proof (induction ws arbitrary: ns)
  case Nil
  then show ?case by (simp add: not_none_def)
next
  case (Cons w ws)
  then show ?case by (cases ns) (simp_all add: not_none_def)
qed

lemma not_none_enumerate: "not_none (enumerate_py (map Some ws)) = enumerate_py ws"
  by (simp add: enumerate_py_def not_none_zip)

lemma map_fst_enumerate: "map fst (enumerate_py xs) = [0..<length xs]"
  by (simp add: enumerate_py_def)

lemma map_snd_enumerate: "map snd (enumerate_py xs) = xs"
  by (simp add: enumerate_py_def)

lemma score_all_ok:
  "\<forall>item \<in> set items. length (snd item) = length q \<Longrightarrow>
     score_all items q = Inr (map (\<lambda>item. (fst item, score_of (snd item) q)) items)"
  by (induction items) (simp_all add: similarity_score_of)

lemma mset_insort_lt: "mset (insort_lt k x ys) = add_mset x (mset ys)"
  by (induction ys) simp_all

lemma mset_sorted_py: "mset (sorted_py k xs) = mset xs"
  by (induction xs) (simp_all add: sorted_py_def mset_insort_lt)

lemma length_sorted_py: "length (sorted_py k xs) = length xs"
  using mset_sorted_py [of k xs] by (metis size_mset)

lemma set_sorted_py: "set (sorted_py k xs) = set xs"
  using mset_sorted_py [of k xs] by (metis set_mset_mset)

lemma collect_ok:
  "\<forall>idx \<in> set idxs. idx < length sv \<Longrightarrow> \<forall>item \<in> set sv. fst item < length ip \<Longrightarrow>
     collect ip sv idxs out = Inr (out @ map (\<lambda>idx. ip ! fst (sv ! idx)) idxs)"
  by (induction idxs arbitrary: out) (simp_all add: Let_def)

lemma collect_append:
  "collect ip sv (xs @ ys) out =
     (case collect ip sv xs out of Inl e \<Rightarrow> Inl e | Inr out' \<Rightarrow> collect ip sv ys out')"
  by (induction xs arbitrary: out) (simp_all add: Let_def)

lemma collect_range:
  assumes "\<forall>item \<in> set sv. fst item < length ip"
  shows "collect ip sv (range_py n) [] =
           (if int (length sv) < n then Inl IndexError
            else Inr (map (\<lambda>idx. ip ! fst (sv ! idx)) (range_py n)))"
proof (cases "int (length sv) < n")
  case False
  then have "\<forall>idx \<in> set (range_py n). idx < length sv"
    by (auto simp: range_py_def)
  from collect_ok [OF this assms, of "[]"] False show ?thesis by simp
next
  case True
  then have lt: "length sv < nat n" by linarith
  have "[0..<nat n] = [0..<length sv] @ [length sv..<nat n]"
    using lt upt_add_eq_append [of 0 "length sv" "nat n - length sv"] by simp
  also have "[length sv..<nat n] = length sv # [Suc (length sv)..<nat n]"
    using lt by (rule upt_conv_Cons)
  finally have "range_py n = [0..<length sv] @ length sv # [Suc (length sv)..<nat n]"
    by (simp add: range_py_def)
  moreover have "collect ip sv [0..<length sv] [] =
      Inr ([] @ map (\<lambda>idx. ip ! fst (sv ! idx)) [0..<length sv])"
    by (rule collect_ok [OF _ assms]) simp
  ultimately show ?thesis
    using True by (simp add: collect_append)
qed

lemma sorted_vectors_Inr:
  assumes "phrase_vector sw m q = Inr qv" and "\<forall>w \<in> set ws. length w = D"
  shows "sorted_vectors sw m (map Some ws) q =
           Inr (sorted_py (\<lambda>item. fl_neg (snd item))
                  (map (\<lambda>item. (fst item, score_of (snd item) qv)) (enumerate_py ws)))"
proof -
  have "length qv = D"
    using assms(1) by (rule phrase_vector_length)
  with assms(2) have "\<forall>item \<in> set (enumerate_py ws). length (snd item) = length qv"
    by (auto simp: enumerate_py_def dest: set_zip_rightD)
  then show ?thesis
    by (simp add: sorted_vectors_def not_none_enumerate assms(1) score_all_ok)
qed

lemma sorted_vectors_indices:
  assumes "phrase_vectors sw m ps = Inr vs" and "sorted_vectors sw m vs q = Inr sv"
  shows "mset (map fst sv) = mset [0..<length ps]"
proof -
  from phrase_vectors_Inr [OF assms(1)] obtain ws where ws: "vs = map Some ws"
    "length ws = length ps" "\<forall>w \<in> set ws. length w = D"
    by blast
  from assms(2) obtain qv where qv: "phrase_vector sw m q = Inr qv"
    by (auto simp: sorted_vectors_def split: sum.splits)
  have "sv = sorted_py (\<lambda>item. fl_neg (snd item))
                  (map (\<lambda>item. (fst item, score_of (snd item) qv)) (enumerate_py ws))"
    using sorted_vectors_Inr [OF qv ws(3)] assms(2) ws(1) by simp
  then have "mset sv = mset (map (\<lambda>item. (fst item, score_of (snd item) qv)) (enumerate_py ws))"
    by (simp add: mset_sorted_py)
  then have "mset (map fst sv) = mset (map fst (map (\<lambda>item. (fst item, score_of (snd item) qv)) (enumerate_py ws)))"
    by (metis mset_map)
  then show ?thesis
    by (simp add: o_def map_fst_enumerate ws(2))
qed

lemma get_comparisons_result:
  assumes "phrase_vectors sw m ps = Inr vs" and "sorted_vectors sw m vs q = Inr sv"
  shows "get_comparisons sw m ps vs q n =
           (if int (length ps) < n then Inl IndexError
            else Inr (map (\<lambda>idx. ps ! fst (sv ! idx)) (range_py n)))"
proof -
  have m: "mset (map fst sv) = mset [0..<length ps]"
    using assms by (rule sorted_vectors_indices)
  then have s: "set (map fst sv) = set [0..<length ps]"
    by (rule mset_eq_setD)
  have bound: "\<forall>item \<in> set sv. fst item < length ps"
  proof
    fix item assume "item \<in> set sv"
    then have "fst item \<in> set (map fst sv)" by simp
    then have "fst item \<in> set [0..<length ps]" by (simp only: s)
    then show "fst item < length ps" by simp
  qed
  have "length (map fst sv) = length [0..<length ps]"
    using m by (rule mset_eq_length)
  then have len: "length sv = length ps"
    by simp
  show ?thesis
    using collect_range [OF bound, of n] by (simp add: get_comparisons_def assms(2) len)
qed

lemma query_wf:
  assumes "wf_model m"
  obtains vs sv where "phrase_vectors sw m ps = Inr vs" and "sorted_vectors sw m vs q = Inr sv"
    and "query sw m ps q n = get_comparisons sw m ps vs q n"
proof -
  let ?vs = "map (\<lambda>p. Some (vector_of sw m p)) ps"
  have vs: "phrase_vectors sw m ps = Inr ?vs"
    using assms by (rule phrase_vectors_wf)
  have qv: "phrase_vector sw m q = Inr (vector_of sw m q)"
    using assms by (rule phrase_vector_vector_of)
  have "length (vector_of sw m p) = D" for p
    using phrase_vector_length [OF phrase_vector_vector_of [OF assms]] .
  then have "\<forall>w \<in> set (map (vector_of sw m) ps). length w = D"
    by simp
  from sorted_vectors_Inr [OF qv this] obtain sv where sv: "sorted_vectors sw m ?vs q = Inr sv"
    by (simp add: o_def)
  have "query sw m ps q n = get_comparisons sw m ps ?vs q n"
    by (simp add: query_def vs)
  with vs sv show thesis by (rule that)
qed

lemma query_index_error:
  assumes "wf_model m" and "int (length ps) < n"
  shows "query sw m ps q n = Inl IndexError"
proof -
  from query_wf [OF assms(1)] obtain vs sv where "phrase_vectors sw m ps = Inr vs"
    "sorted_vectors sw m vs q = Inr sv" "query sw m ps q n = get_comparisons sw m ps vs q n"
    by blast
  then show ?thesis
    using assms(2) by (simp add: get_comparisons_result)
qed

lemma query_length:
  assumes "wf_model m" and "n \<le> int (length ps)"
  shows "\<exists>out. query sw m ps q n = Inr out \<and> length out = nat n"
proof -
  from query_wf [OF assms(1)] obtain vs sv where "phrase_vectors sw m ps = Inr vs"
    "sorted_vectors sw m vs q = Inr sv" "query sw m ps q n = get_comparisons sw m ps vs q n"
    by blast
  then show ?thesis
    using assms(2) by (simp add: get_comparisons_result range_py_def)
qed

lemma query_empty_range:
  assumes "wf_model m" and "n \<le> 0"
  shows "query sw m ps q n = Inr []"
proof -
  from query_length [OF assms(1), of n ps sw q] assms(2)
  obtain out where "query sw m ps q n = Inr out" "length out = nat n"
    by auto
  with assms(2) show ?thesis by simp
qed

lemma enumerate_map_Some:
  "enumerate_py (map Some ws) = map (\<lambda>item. (fst item, Some (snd item))) (enumerate_py ws)"
  by (simp add: enumerate_py_def zip_map2 case_prod_unfold)

lemma phrase_vectors_happy:
  "phrase_vectors {} happy_model [''happy''] = Inr [Some (map Fin unit_vector)]"
  by (simp add: phrase_vector_happy)

lemma phrase_vectors_xyzzy:
  "phrase_vectors {} happy_model [''xyzzy''] = Inr [Some (zeros D)]"
  by (simp add: phrase_vector_xyzzy)

lemma phrase_vectors_xyzzy_happy:
  "phrase_vectors {} happy_model [''xyzzy'', ''happy''] =
     Inr [Some (zeros D), Some (map Fin unit_vector)]"
  by (simp add: phrase_vector_xyzzy phrase_vector_happy)

lemma similarity_zeros_unit: "similarity (zeros D) (map Fin unit_vector) = Inr NaN"
  by (rule similarity_zero_norm_aux) (simp_all add: length_unit_vector norm_zeros)

lemma similarity_unit_unit: "similarity (map Fin unit_vector) (map Fin unit_vector) = Inr (Fin 1)"
  by (rule similarity_self_aux [OF norm_unit_vector]) simp

lemma sorted_vectors_xyzzy:
  "sorted_vectors {} happy_model [Some (zeros D)] ''happy'' = Inr [(0, NaN)]"
  by (simp add: sorted_vectors_def enumerate_py_def not_none_def phrase_vector_happy
      similarity_zeros_unit sorted_py_def)

lemma sorted_vectors_xyzzy_happy:
  "sorted_vectors {} happy_model [Some (zeros D), Some (map Fin unit_vector)] ''happy'' =
     Inr [(0, NaN), (1, Fin 1)]"
  by (simp add: sorted_vectors_def enumerate_py_def not_none_def phrase_vector_happy
      similarity_zeros_unit similarity_unit_unit sorted_py_def upt_rec)

lemma query_xyzzy_happy:
  "query {} happy_model [''xyzzy'', ''happy''] ''happy'' 2 = Inr [''xyzzy'', ''happy'']"
  unfolding query_def phrase_vectors_xyzzy_happy get_comparisons_def sum.case
    sorted_vectors_xyzzy_happy
  by (simp add: range_py_def upt_rec)

lemma insort_lt_fin:
  "is_fin (k x) \<Longrightarrow> \<forall>y \<in> set ys. is_fin (k y) \<Longrightarrow>
     insort_lt k x ys = insort_key (\<lambda>x. real_of (k x)) x ys"
proof (induction ys)
  case Nil
  then show ?case by simp
next
  case (Cons y ys)
  then obtain a b where "k x = Fin a" "k y = Fin b"
    by (cases "k x"; cases "k y") auto
  with Cons show ?case by auto
qed

lemma sorted_py_fin:
  "\<forall>x \<in> set xs. is_fin (k x) \<Longrightarrow> sorted_py k xs = sort_key (\<lambda>x. real_of (k x)) xs"
proof (induction xs)
  case Nil
  then show ?case by (simp add: sorted_py_def)
next
  case (Cons x xs)
  then have "sorted_py k xs = sort_key (\<lambda>x. real_of (k x)) xs"
    by simp
  moreover have "\<forall>y \<in> set (sorted_py k xs). is_fin (k y)"
    using Cons.prems by (simp add: set_sorted_py)
  ultimately show ?case
    using Cons.prems insort_lt_fin [of k x "sorted_py k xs"] by (simp add: sorted_py_def)
qed

lemma is_fin_neg: "is_fin (fl_neg x) = is_fin x"
  by (cases x) simp_all

lemma descending_sorted:
  "\<forall>x \<in> set xs. is_fin x \<Longrightarrow> sorted (map (\<lambda>x. real_of (fl_neg x)) xs) \<Longrightarrow> descending xs"
proof (induction xs rule: descending.induct)
  case (1 x y ys)
  then obtain a b where "x = Fin a" "y = Fin b"
    by (cases x; cases y) auto
  with 1 show ?case by auto
qed simp_all

lemma sorted_py_descending:
  assumes "\<forall>item \<in> set xs. is_fin (snd item)"
  shows "descending (map snd (sorted_py (\<lambda>item. fl_neg (snd item)) xs))"
proof -
  let ?k = "\<lambda>item. fl_neg (snd item)"
  have eq: "sorted_py ?k xs = sort_key (\<lambda>x. real_of (?k x)) xs"
    using assms by (intro sorted_py_fin) (simp add: is_fin_neg)
  have "sorted (map (\<lambda>x. real_of (?k x)) (sort_key (\<lambda>x. real_of (?k x)) xs))"
    by (rule sorted_sort_key)
  then have "sorted (map (\<lambda>x. real_of (fl_neg x)) (map snd (sorted_py ?k xs)))"
    by (simp add: eq o_def)
  moreover have "\<forall>x \<in> set (map snd (sorted_py ?k xs)). is_fin x"
    using assms by (simp add: set_sorted_py)
  ultimately show ?thesis
    by (intro descending_sorted)
qed

lemma sorted_py_stable:
  assumes "\<forall>item \<in> set xs. is_fin (snd item)"
  shows "filter (\<lambda>item. snd item = s) (sorted_py (\<lambda>item. fl_neg (snd item)) xs) =
           filter (\<lambda>item. snd item = s) xs"
proof (cases s)
  case (Fin a)
  let ?k = "\<lambda>item. fl_neg (snd item)"
  let ?f = "\<lambda>x. real_of (?k x)"
  have eq: "sorted_py ?k xs = sort_key ?f xs"
    using assms by (intro sorted_py_fin) (simp add: is_fin_neg)
  have same: "(snd item = s) = (?f item = - a)" if "is_fin (snd item)" for item :: "'a \<times> fl"
    using that Fin by (cases "snd item") auto
  have "filter (\<lambda>item. snd item = s) (sort_key ?f xs) = filter (\<lambda>item. ?f item = - a) (sort_key ?f xs)"
    using assms by (intro filter_cong refl same) simp
  also have "\<dots> = filter (\<lambda>item. ?f item = - a) xs"
    by (rule sort_key_stable)
  also have "\<dots> = filter (\<lambda>item. snd item = s) xs"
    using assms by (intro filter_cong refl same [symmetric]) simp
  finally show ?thesis by (simp only: eq)
next
  case PInf
  with assms have "\<forall>item \<in> set xs. snd item \<noteq> s" by auto
  then show ?thesis by (simp add: set_sorted_py filter_empty_conv [THEN iffD2])
next
  case NInf
  with assms have "\<forall>item \<in> set xs. snd item \<noteq> s" by auto
  then show ?thesis by (simp add: set_sorted_py filter_empty_conv [THEN iffD2])
next
  case NaN
  with assms have "\<forall>item \<in> set xs. snd item \<noteq> s" by auto
  then show ?thesis by (simp add: set_sorted_py filter_empty_conv [THEN iffD2])
qed

lemma sorted_vectors_order:
  assumes "phrase_vectors sw m ps = Inr vs" and "sorted_vectors sw m vs q = Inr sv"
    and "\<forall>item \<in> set sv. is_fin (snd item)"
  shows "descending (map snd sv) \<and>
         (\<forall>s. sorted (map fst (filter (\<lambda>item. snd item = s) sv)))"
proof -
  from phrase_vectors_Inr [OF assms(1)] obtain ws where ws: "vs = map Some ws"
    "\<forall>w \<in> set ws. length w = D"
    by blast
  from assms(2) obtain qv where qv: "phrase_vector sw m q = Inr qv"
    by (auto simp: sorted_vectors_def split: sum.splits)
  let ?scored = "map (\<lambda>item. (fst item, score_of (snd item) qv)) (enumerate_py ws)"
  have sv: "sv = sorted_py (\<lambda>item. fl_neg (snd item)) ?scored"
    using sorted_vectors_Inr [OF qv ws(2)] assms(2) ws(1) by simp
  have fin: "\<forall>item \<in> set ?scored. is_fin (snd item)"
    using assms(3) unfolding sv set_sorted_py .
  have "descending (map snd sv)"
    unfolding sv using fin by (rule sorted_py_descending)
  moreover have "sorted (map fst (filter (\<lambda>item. snd item = s) sv))" for s
  proof -
    have "map fst ?scored = [0..<length ws]"
      by (simp add: o_def map_fst_enumerate)
    then have "sorted (map fst ?scored)"
      by simp
    then have "sorted (map fst (filter (\<lambda>item. snd item = s) ?scored))"
      by (rule sorted_filter)
    then show ?thesis
      unfolding sv sorted_py_stable [OF fin] .
  qed
  ultimately show ?thesis by blast
qed

lemma sum_list_zero: "\<forall>x \<in> set xs. f x = (0::real) \<Longrightarrow> (\<Sum>x\<leftarrow>xs. f x) = 0"
  by (induction xs) simp_all

lemma phrase_vector_unknown:
  assumes "wf_model m" and "phrase_words sw p \<noteq> []"
    and "\<forall>w \<in> set (phrase_words sw p). m w = None"
  shows "phrase_vector sw m p = Inr (zeros D)"
proof -
  have "token_vector_spec m w = replicate D 0" if "w \<in> set (phrase_words sw p)" for w
    using that assms(3) by (simp add: token_vector_spec_def)
  then have "(\<Sum>v\<leftarrow>map (token_vector_spec m) (phrase_words sw p). v ! i) = 0" if "i < D" for i
    using that by (simp add: o_def sum_list_zero)
  then have "mean_spec (map (token_vector_spec m) (phrase_words sw p)) = zeros D"
    by (simp add: mean_spec_def zeros_def list_eq_iff_nth_eq del: map_map)
  then show ?thesis
    using phrase_vector_mean_aux [OF assms(1,2)] by simp
qed

section \<open>The vectorizer\<close>

text \<open>
  C1. For every input string with at least one token, \<open>phrase_vector\<close> returns the
  elementwise arithmetic mean of the vectors of its tokens, where a token that the table
  does not know contributes the zero vector of dimension 300 and does not abort the
  computation. The table is taken to hold vectors of dimension 300 only.
\<close>

theorem phrase_vector_mean:
  assumes "wf_model m" and "phrase_words sw p \<noteq> []"
  shows "phrase_vector sw m p =
           Inr (mean_spec (map (token_vector_spec m) (phrase_words sw p)))"
  using assms by (rule phrase_vector_mean_aux)

theorem phrase_vector_mean_witness:
  "wf_model happy_model \<and> phrase_words {} ''Happy xyzzy'' \<noteq> [] \<and>
   phrase_vector {} happy_model ''Happy xyzzy'' = Inr (Fin (1 / 2) # replicate (D - 1) (Fin 0))"
  using phrase_vector_mean [OF wf_happy_model, of "{}" "''Happy xyzzy''"]
  by (simp add: wf_happy_model words_happy_xyzzy token_vector_happy token_vector_xyzzy
      mean_spec_happy_xyzzy)

text \<open>
  C9. No token is dropped for being a stopword: whatever the stopword set, the tokens
  that are aggregated are the whole white-space split of the lowercased input.
\<close>

theorem phrase_words_keeps_stopwords:
  "phrase_words stopwords phrase = split_py (lower_py phrase)"
  by (rule phrase_words_all)

theorem phrase_words_keeps_stopwords_witness:
  "phrase_words {''the''} ''The  cat'' = [''the'', ''cat'']"
proof -
  have "split_py (lower_py ''The  cat'') = [''the'', ''cat'']"
    by code_simp
  then show ?thesis
    using phrase_words_keeps_stopwords [of "{''the''}" "''The  cat''"] by simp
qed

text \<open>
  C5 asks that an input without tokens (the empty string, a string of white space only)
  be answered by an error or an undefined marker, not by a division by zero, and
  \<open>get_comparisons\<close> does filter the vectors on \<open>None\<close>. The notebook's
  \<open>phrase_vector\<close> never gives such a marker: on every input without tokens it divides
  the zero vector by the token count \<open>0\<close> and returns, as an ordinary result, the vector
  of dimension 300 whose every component is not-a-number.
\<close>

theorem phrase_vector_empty:
  assumes "phrase_words sw p = []"
  shows "phrase_vector sw m p = Inr (replicate 300 NaN)"
  using phrase_vector_no_words [OF assms] by (simp add: D_def)

theorem phrase_vector_empty_witness:
  "phrase_words {} ''   '' = [] \<and> phrase_vector {} happy_model ''   '' = Inr (replicate 300 NaN)"
proof -
  have h: "phrase_words {} ''   '' = []"
    by (simp add: phrase_words_empty_iff is_space_def)
  show ?thesis
    using h phrase_vector_empty [OF h, of happy_model] by simp
qed

section \<open>The scorer\<close>

text \<open>
  C4 asks that a zero-norm operand be an error and never a not-a-number score, and the
  docstring of \<open>similarity\<close> promises a score from -1 to 1. The notebook's
  \<open>similarity\<close> keeps neither: on every pair of vectors of equal dimension of which one
  has norm zero it returns, as an ordinary result, the value not-a-number.
\<close>

theorem similarity_zero_norm:
  assumes "length a = length b" and "norm_fl a = Fin 0 \<or> norm_fl b = Fin 0"
  shows "similarity a b = Inr NaN"
  using assms by (rule similarity_zero_norm_aux)

theorem similarity_zero_norm_witness:
  "length (zeros D) = length (map Fin unit_vector) \<and> norm_fl (zeros D) = Fin 0 \<and>
   similarity (zeros D) (map Fin unit_vector) = Inr NaN"
  using similarity_zero_norm [of "zeros D" "map Fin unit_vector"]
  by (simp add: norm_zeros length_unit_vector)

text \<open>
  C8. For every vector whose norm is a number other than zero, the similarity of the
  vector with itself is exactly 1.
\<close>

theorem similarity_self:
  assumes "norm_fl v = Fin r" and "r \<noteq> 0"
  shows "similarity v v = Inr (Fin 1)"
  using assms by (rule similarity_self_aux)

theorem similarity_self_witness:
  "norm_fl (map Fin unit_vector) = Fin 1 \<and> (1::real) \<noteq> 0 \<and>
   similarity (map Fin unit_vector) (map Fin unit_vector) = Inr (Fin 1)"
  using similarity_self [OF norm_unit_vector] by (simp add: norm_unit_vector)

section \<open>The query\<close>

text \<open>
  C10. The filter on \<open>None\<close> in \<open>get_comparisons\<close> drops nothing: whenever
  \<open>phrase_vector\<close> returns, it returns a vector of length 300, never \<open>None\<close>; so for
  every corpus whose vectors could be computed, the filtered list is the whole enumerated
  corpus, and the indices that leave the sort are exactly the indices of the corpus,
  each once. The example keeps a phrase whose vector is the zero vector.
\<close>

theorem none_filter_keeps_all:
  "(phrase_vector sw m p = Inr v \<longrightarrow> length v = 300) \<and>
   (phrase_vectors sw m ps = Inr vs \<longrightarrow>
      None \<notin> set vs \<and> length vs = length ps \<and>
      map (\<lambda>item. (fst item, Some (snd item))) (not_none (enumerate_py vs)) = enumerate_py vs \<and>
      (sorted_vectors sw m vs q = Inr sv \<longrightarrow> mset (map fst sv) = mset [0..<length ps]))"
proof (intro conjI impI)
  assume "phrase_vector sw m p = Inr v"
  then show "length v = 300"
    by (simp add: phrase_vector_length [unfolded D_def])
next
  assume a: "phrase_vectors sw m ps = Inr vs"
  from phrase_vectors_Inr [OF a] obtain ws where ws: "vs = map Some ws" "length ws = length ps"
    by blast
  show "None \<notin> set vs" using ws by auto
  show "length vs = length ps" using ws by simp
  show "map (\<lambda>item. (fst item, Some (snd item))) (not_none (enumerate_py vs)) = enumerate_py vs"
    by (simp only: ws(1) not_none_enumerate) (simp add: enumerate_map_Some)
  assume "sorted_vectors sw m vs q = Inr sv"
  with a show "mset (map fst sv) = mset [0..<length ps]"
    by (rule sorted_vectors_indices)
qed

theorem none_filter_keeps_all_witness:
  "phrase_vector {} happy_model ''xyzzy'' = Inr (zeros D) \<and> length (zeros D) = 300 \<and>
   phrase_vectors {} happy_model [''xyzzy''] = Inr [Some (zeros D)] \<and>
   not_none (enumerate_py [Some (zeros D)]) = [(0, zeros D)] \<and>
   sorted_vectors {} happy_model [Some (zeros D)] ''happy'' = Inr [(0, NaN)] \<and>
   mset (map fst [(0::nat, NaN)]) = mset [0..<length [''xyzzy'']]"
  using none_filter_keeps_all [of "{}" happy_model "''xyzzy''" "zeros D" "[''xyzzy'']"
      "[Some (zeros D)]" "''happy''" "[(0, NaN)]"]
  by (simp add: phrase_vector_xyzzy phrase_vectors_xyzzy sorted_vectors_xyzzy
      enumerate_py_def not_none_def)

text \<open>
  C2 asks for \<open>min(n, size)\<close> results and no failure where \<open>n\<close> exceeds the size of
  the index. The loop over \<open>range(number)\<close> indexes the sorted list without a bound: on
  an index of one phrase and \<open>n = 2\<close> the notebook raises \<open>IndexError\<close>.
\<close>

theorem query_beyond_size:
  "query {} happy_model [''happy''] ''happy'' 2 = Inl IndexError"
  by (simp add: query_index_error wf_happy_model)

text \<open>
  C3 asks that a phrase made of unknown tokens only never appears in a result. Its vector
  is the zero vector, which is not \<open>None\<close>, so the filter keeps it; its score is
  not-a-number and it goes through the sort. On the corpus of that one phrase the query
  returns it.
\<close>

theorem degenerate_entry_returned:
  "phrase_vector {} happy_model ''xyzzy'' = Inr (zeros D) \<and> norm_fl (zeros D) = Fin 0 \<and>
   query {} happy_model [''xyzzy''] ''happy'' 1 = Inr [''xyzzy'']"
  by (simp add: phrase_vector_xyzzy norm_zeros query_def phrase_vectors_xyzzy
      get_comparisons_def sorted_vectors_xyzzy range_py_def)

text \<open>
  C6 asks that the scores of a result descend. On the corpus of an unknown phrase followed
  by a known one, the score not-a-number of the first stays in front of the score 1 of
  the second: no comparison with not-a-number is true, so the sort moves nothing.
\<close>

theorem nan_score_breaks_order:
  "phrase_vectors {} happy_model [''xyzzy'', ''happy''] =
     Inr [Some (zeros D), Some (map Fin unit_vector)] \<and>
   sorted_vectors {} happy_model [Some (zeros D), Some (map Fin unit_vector)] ''happy'' =
     Inr [(0, NaN), (1, Fin 1)] \<and>
   \<not> descending [NaN, Fin 1] \<and>
   query {} happy_model [''xyzzy'', ''happy''] ''happy'' 2 = Inr [''xyzzy'', ''happy'']"
  unfolding phrase_vectors_xyzzy_happy sorted_vectors_xyzzy_happy query_xyzzy_happy
  by simp

text \<open>
  C7, as the specification states it, makes \<open>n \<le> 0\<close> an error. The notebook raises
  none: \<open>range(number)\<close> is empty and the result is the empty list.
\<close>

theorem query_nonpositive_counterexample:
  "query {} happy_model [''happy''] ''happy'' (- 1) = Inr [] \<and>
   query {} happy_model [''happy''] ''happy'' 0 = Inr []"
  by (simp add: query_empty_range wf_happy_model)

text \<open>
  C7, amended. For a table of vectors of dimension 300, a query with \<open>n \<le> 0\<close> is not
  an error: it returns the empty list, whatever the corpus; in particular the empty
  corpus with \<open>n = 0\<close> yields the empty list.
\<close>

theorem query_nonpositive:
  assumes "wf_model m" and "n \<le> 0"
  shows "query sw m ps q n = Inr []"
  using assms by (rule query_empty_range)

theorem query_nonpositive_witness:
  "wf_model happy_model \<and> (0::int) \<le> 0 \<and> query {} happy_model [] ''happy'' 0 = Inr []"
  using query_nonpositive [OF wf_happy_model, of 0 "{}" "[]" "''happy''"]
  by (simp add: wf_happy_model)

end
